theory Spec2Isabelle
  imports Complex_Main "HOL-Library.Log_Nat"
begin

section \<open>JavaScript numbers and strings\<close>

text \<open>
  A JavaScript number is a double: a finite value (a rational here; the sign of zero is
  not kept, no handler reads it), an infinity, or \<^verbatim>\<open>NaN\<close>. An arithmetic operation
  rounds its exact result to the nearest double, ties to the even significand:
  \<open>round_double\<close>, with 53 bits of significand, exponents from -1022 to 1023,
  subnormals below and the infinities above.
\<close>

datatype jsnumber = Finite rat | PlusInfinity | MinusInfinity | NaN

definition pow2 :: "int \<Rightarrow> rat" where
  "pow2 e = (if 0 \<le> e then 2 ^ nat e else 1 / 2 ^ nat (- e))"

text \<open>For a positive \<open>a\<close>, the integer \<open>k\<close> with \<open>2 ^ k \<le> a < 2 ^ (k + 1)\<close>.\<close>

definition floor_log2 :: "rat \<Rightarrow> int" where
  "floor_log2 a =
     (case quotient_of a of
        (p, q) \<Rightarrow> (let d = bitlen p - bitlen q in if pow2 d \<le> a then d else d - 1))"

definition round_double :: "rat \<Rightarrow> jsnumber" where
  "round_double x =
     (if x = 0 then Finite 0
      else
        (let a = \<bar>x\<bar>;
             k = floor_log2 a;
             u = pow2 (max k (- 1022) - 52);
             q = a / u;
             f = \<lfloor>q\<rfloor>;
             r = q - of_int f;
             m = (if r < 1 / 2 then f else if 1 / 2 < r then f + 1
                  else if even f then f else f + 1)
         in if 1024 \<le> k \<or> (k = 1023 \<and> m = 2 ^ 53)
            then (if 0 < x then PlusInfinity else MinusInfinity)
            else Finite (sgn x * (of_int m * u))))"

fun js_negate :: "jsnumber \<Rightarrow> jsnumber" where
  "js_negate (Finite x) = Finite (- x)"
| "js_negate PlusInfinity = MinusInfinity"
| "js_negate MinusInfinity = PlusInfinity"
| "js_negate NaN = NaN"

fun js_plus :: "jsnumber \<Rightarrow> jsnumber \<Rightarrow> jsnumber" where
  "js_plus NaN y = NaN"
| "js_plus x NaN = NaN"
| "js_plus (Finite x) (Finite y) = round_double (x + y)"
| "js_plus PlusInfinity MinusInfinity = NaN"
| "js_plus MinusInfinity PlusInfinity = NaN"
| "js_plus PlusInfinity y = PlusInfinity"
| "js_plus MinusInfinity y = MinusInfinity"
| "js_plus (Finite x) y = y"

definition js_minus :: "jsnumber \<Rightarrow> jsnumber \<Rightarrow> jsnumber" where
  "js_minus x y = js_plus x (js_negate y)"

fun js_less :: "jsnumber \<Rightarrow> jsnumber \<Rightarrow> bool" where
  "js_less NaN y = False"
| "js_less x NaN = False"
| "js_less (Finite x) (Finite y) = (x < y)"
| "js_less x MinusInfinity = False"
| "js_less MinusInfinity y = True"
| "js_less PlusInfinity y = False"
| "js_less (Finite x) PlusInfinity = True"

definition js_greater_equal :: "jsnumber \<Rightarrow> jsnumber \<Rightarrow> bool" where
  "js_greater_equal x y = (x \<noteq> NaN \<and> y \<noteq> NaN \<and> \<not> js_less x y)"

text \<open>
  \<^verbatim>\<open>x % y\<close> is a finite number or \<^verbatim>\<open>NaN\<close> (\<open>None\<close> here): the dividend minus the divisor
  times the quotient truncated towards zero, which is exact.
\<close>

fun js_remainder :: "jsnumber \<Rightarrow> jsnumber \<Rightarrow> rat option" where
  "js_remainder (Finite x) (Finite y) =
     (if y = 0 then None
      else Some (x - y * of_int (if 0 \<le> x / y then \<lfloor>x / y\<rfloor> else \<lceil>x / y\<rceil>)))"
| "js_remainder (Finite x) PlusInfinity = Some x"
| "js_remainder (Finite x) MinusInfinity = Some x"
| "js_remainder x y = None"

text \<open>
  \<^verbatim>\<open>array[index]\<close> on an array with no holes: the element when the number is an integer
  from 0 up to the length, \<^verbatim>\<open>undefined\<close> (\<open>None\<close>) for every other number.
\<close>

fun array_get :: "'a list \<Rightarrow> jsnumber \<Rightarrow> 'a option" where
  "array_get xs (Finite r) =
     (if of_int \<lfloor>r\<rfloor> = r \<and> 0 \<le> r \<and> r < of_nat (length xs) then Some (xs ! nat \<lfloor>r\<rfloor>) else None)"
| "array_get xs x = None"

text \<open>
  A string is the list of the bytes of its UTF-8 encoding.
\<close>

definition startsWith :: "string \<Rightarrow> string \<Rightarrow> bool" where
  "startsWith s p = (take (length p) s = p)"

fun str_includes :: "string \<Rightarrow> string \<Rightarrow> bool" where
  "str_includes [] sub = (sub = [])"
| "str_includes (c # s) sub = (startsWith (c # s) sub \<or> str_includes s sub)"

fun decimal :: "nat \<Rightarrow> string" where
  "decimal n = (if n < 10 then [char_of (48 + n)]
                else decimal (n div 10) @ [char_of (48 + n mod 10)])"

declare decimal.simps [simp del]

fun join :: "string \<Rightarrow> string list \<Rightarrow> string" where
  "join sep [] = []"
| "join sep [x] = x"
| "join sep (x # y # r) = x @ sep @ join sep (y # r)"

text \<open>
  The white space and line terminators \<^verbatim>\<open>parseInt\<close> skips: the one-byte ones (tab, line
  feed, vertical tab, form feed, carriage return, space), U+00A0 in two bytes, and in
  three bytes U+1680, U+2000 to U+200A, U+2028, U+2029, U+202F, U+205F, U+3000 and
  U+FEFF.
\<close>

definition whiteSpace1 :: "char list" where
  "whiteSpace1 = [CHR 0x09, CHR 0x0A, CHR 0x0B, CHR 0x0C, CHR 0x0D, CHR 0x20]"

definition whiteSpace2 :: "string list" where
  "whiteSpace2 = [[CHR 0xC2, CHR 0xA0]]"

definition whiteSpace3 :: "string list" where
  "whiteSpace3 =
     [CHR 0xE1, CHR 0x9A, CHR 0x80] #
     map (\<lambda>b. [CHR 0xE2, CHR 0x80, b])
       [CHR 0x80, CHR 0x81, CHR 0x82, CHR 0x83, CHR 0x84, CHR 0x85, CHR 0x86, CHR 0x87,
        CHR 0x88, CHR 0x89, CHR 0x8A, CHR 0xA8, CHR 0xA9, CHR 0xAF]
     @ [[CHR 0xE2, CHR 0x81, CHR 0x9F], [CHR 0xE3, CHR 0x80, CHR 0x80],
        [CHR 0xEF, CHR 0xBB, CHR 0xBF]]"

function trimStart :: "string \<Rightarrow> string" where
  "trimStart [] = []"
| "trimStart (c # s) =
     (if c \<in> set whiteSpace1 then trimStart s
      else if list_ex (startsWith (c # s)) whiteSpace2 then trimStart (drop 1 s)
      else if list_ex (startsWith (c # s)) whiteSpace3 then trimStart (drop 2 s)
      else c # s)"
  by pat_completeness auto

termination
  by (relation "measure length") auto

definition digitValue :: "char \<Rightarrow> nat option" where
  "digitValue c =
     (let n = (of_char c :: nat) in
      if 48 \<le> n \<and> n \<le> 57 then Some (n - 48)
      else if 97 \<le> n \<and> n \<le> 122 then Some (n - 87)
      else if 65 \<le> n \<and> n \<le> 90 then Some (n - 55)
      else None)"

definition isRadixDigit :: "nat \<Rightarrow> char \<Rightarrow> bool" where
  "isRadixDigit radix c = (case digitValue c of None \<Rightarrow> False | Some d \<Rightarrow> d < radix)"

text \<open>
  \<^verbatim>\<open>parseInt(string, radix)\<close> for the radix 10 and 16, after ECMAScript: leading white
  space is skipped, one sign is read, radix 16 strips one \<^verbatim>\<open>0x\<close> or \<^verbatim>\<open>0X\<close>, the longest
  prefix of digits is read, no digit at all gives \<^verbatim>\<open>NaN\<close>, and the signed integer read is
  rounded to a double.
\<close>

definition parseInt :: "string \<Rightarrow> nat \<Rightarrow> jsnumber" where
  "parseInt inputString radix =
     (let S = trimStart inputString;
          sign = (case S of c # _ \<Rightarrow> if c = CHR ''-'' then (- 1 :: rat) else 1 | [] \<Rightarrow> 1);
          S1 = (case S of c # r \<Rightarrow> if c = CHR ''-'' \<or> c = CHR ''+'' then r else S | [] \<Rightarrow> S);
          S2 = (if radix = 16 \<and> (startsWith S1 ''0x'' \<or> startsWith S1 ''0X'')
                then drop 2 S1 else S1);
          Z = takeWhile (isRadixDigit radix) S2
      in if Z = [] then NaN
         else round_double
                (sign * of_int (foldl (\<lambda>a c. a * int radix + int (the (digitValue c))) 0 Z)))"

section \<open>The syntax tree\<close>

text \<open>
  The node kinds the transforms inspect, with the fields they read, in the order
  the traversal visits them; \<open>OtherExpression\<close> and \<open>OtherStatement\<close> stand for
  every other node kind, with its type name and its children. An array element
  is \<open>None\<close> for a hole (\<^verbatim>\<open>null\<close> in the element list).
\<close>

datatype expr =
    Identifier string
  | StringLiteral string
  | NumericLiteral jsnumber
  | OtherLiteral string
  | ArrayExpression "expr option list"
  | ObjectExpression "objmember list"
  | FunctionExpression "expr list" "stmt list"
  | ArrowFunctionExpression "expr list" "stmt list"
  | CallExpression expr "expr list"
  | NewExpression expr "expr list"
  | MemberExpression expr expr bool
  | BinaryExpression string expr expr
  | UnaryExpression string expr
  | UpdateExpression string bool expr
  | ConditionalExpression expr expr expr
  | AssignmentExpression string expr expr
  | OtherExpression string "child list"
and objmember =
    ObjectProperty expr expr
  | OtherMember string "child list"
and stmt =
    ExpressionStatement expr
  | VariableDeclaration "declarator list"
  | FunctionDeclaration "string option" "expr list" "stmt list"
  | ReturnStatement "expr option"
  | OtherStatement string "child list"
and declarator =
    VariableDeclarator expr "expr option"
and child =
    ChildExpression expr
  | ChildStatement stmt

text \<open>What a binding's path or a visited path points at.\<close>

datatype node = Expr expr | Stmt stmt | Declarator declarator | Program "stmt list"

text \<open>
  The nodes below a node in the order a depth-first traversal enters them
  (each node before its children, children in the order of their visitor keys).
\<close>

fun subnodes_e :: "expr \<Rightarrow> node list"
  and subnodes_m :: "objmember \<Rightarrow> node list"
  and subnodes_s :: "stmt \<Rightarrow> node list"
  and subnodes_d :: "declarator \<Rightarrow> node list"
  and subnodes_c :: "child \<Rightarrow> node list" where
  "subnodes_e (Identifier x) = [Expr (Identifier x)]"
| "subnodes_e (StringLiteral v) = [Expr (StringLiteral v)]"
| "subnodes_e (NumericLiteral v) = [Expr (NumericLiteral v)]"
| "subnodes_e (OtherLiteral k) = [Expr (OtherLiteral k)]"
| "subnodes_e (ArrayExpression elements) =
     Expr (ArrayExpression elements) #
       concat (map (\<lambda>el. case el of None \<Rightarrow> [] | Some e \<Rightarrow> subnodes_e e) elements)"
| "subnodes_e (ObjectExpression properties) =
     Expr (ObjectExpression properties) # concat (map subnodes_m properties)"
| "subnodes_e (FunctionExpression params body) =
     Expr (FunctionExpression params body) #
       concat (map subnodes_e params) @ concat (map subnodes_s body)"
| "subnodes_e (ArrowFunctionExpression params body) =
     Expr (ArrowFunctionExpression params body) #
       concat (map subnodes_e params) @ concat (map subnodes_s body)"
| "subnodes_e (CallExpression callee args) =
     Expr (CallExpression callee args) # subnodes_e callee @ concat (map subnodes_e args)"
| "subnodes_e (NewExpression callee args) =
     Expr (NewExpression callee args) # subnodes_e callee @ concat (map subnodes_e args)"
| "subnodes_e (MemberExpression object property computed) =
     Expr (MemberExpression object property computed) # subnodes_e object @ subnodes_e property"
| "subnodes_e (BinaryExpression operator left right) =
     Expr (BinaryExpression operator left right) # subnodes_e left @ subnodes_e right"
| "subnodes_e (UnaryExpression operator argument) =
     Expr (UnaryExpression operator argument) # subnodes_e argument"
| "subnodes_e (UpdateExpression operator prefix argument) =
     Expr (UpdateExpression operator prefix argument) # subnodes_e argument"
| "subnodes_e (ConditionalExpression test consequent alternate) =
     Expr (ConditionalExpression test consequent alternate) #
       subnodes_e test @ subnodes_e consequent @ subnodes_e alternate"
| "subnodes_e (AssignmentExpression operator left right) =
     Expr (AssignmentExpression operator left right) # subnodes_e left @ subnodes_e right"
| "subnodes_e (OtherExpression k children) =
     Expr (OtherExpression k children) # concat (map subnodes_c children)"
| "subnodes_m (ObjectProperty key v) = subnodes_e key @ subnodes_e v"
| "subnodes_m (OtherMember k children) = concat (map subnodes_c children)"
| "subnodes_s (ExpressionStatement e) = Stmt (ExpressionStatement e) # subnodes_e e"
| "subnodes_s (VariableDeclaration declarations) =
     Stmt (VariableDeclaration declarations) # concat (map subnodes_d declarations)"
| "subnodes_s (FunctionDeclaration name params body) =
     Stmt (FunctionDeclaration name params body) #
       concat (map subnodes_e params) @ concat (map subnodes_s body)"
| "subnodes_s (ReturnStatement argument) =
     Stmt (ReturnStatement argument) # (case argument of None \<Rightarrow> [] | Some e \<Rightarrow> subnodes_e e)"
| "subnodes_s (OtherStatement k children) =
     Stmt (OtherStatement k children) # concat (map subnodes_c children)"
| "subnodes_d (VariableDeclarator ident init) =
     Declarator (VariableDeclarator ident init) #
       subnodes_e ident @ (case init of None \<Rightarrow> [] | Some e \<Rightarrow> subnodes_e e)"
| "subnodes_c (ChildExpression e) = subnodes_e e"
| "subnodes_c (ChildStatement s) = subnodes_s s"

type_synonym scope = "string \<Rightarrow> node option"

section \<open>Abba: the string-array rotator\<close>

text \<open>
  What a transform does to the tree is recorded: the replacements and removals by
  path, the change count, and the exception that left a handler, if any (an exception
  ends the traversal).

  The rotator's handler reads the call node at a path and the scope's bindings; it
  rotates the element list of the array the first argument is bound to in place (the
  binding's declarator is the one node of the tree that changes), removes the path and
  counts one change. \<open>JSON_stringify\<close> is the host's serialiser, a parameter.
\<close>

record effects =
  replaced :: "(nat \<times> expr) list"
  removed :: "nat list"
  changes :: nat
  thrown :: "string option"

record rotator_world = effects +
  bindings :: scope

text \<open>
  The loop \<^verbatim>\<open>for (let i = 0; i < effectiveRotation; i++)\<close>, whose body shifts the first
  element off and pushes it back (nothing is pushed when there was nothing to shift).
\<close>

function rotate_loop :: "nat \<Rightarrow> rat \<Rightarrow> 'a list \<Rightarrow> 'a list" where
  "rotate_loop i effectiveRotation elements =
     (if of_nat i < effectiveRotation
      then rotate_loop (Suc i) effectiveRotation
             (case elements of [] \<Rightarrow> [] | firstElement # rest \<Rightarrow> rest @ [firstElement])
      else elements)"
  by pat_completeness auto

termination
proof (relation "measure (\<lambda>(i, r, elements). nat \<lceil>r\<rceil> - i)")
  show "wf (measure (\<lambda>(i, r, elements :: 'a list). nat \<lceil>r\<rceil> - i))"
    by simp
next
  fix i :: nat and effectiveRotation :: rat and elements :: "'a list"
  assume a: "of_nat i < effectiveRotation"
  have "effectiveRotation \<le> of_int \<lceil>effectiveRotation\<rceil>"
    by (rule le_of_int_ceiling)
  with a have "(of_nat i :: rat) < of_int \<lceil>effectiveRotation\<rceil>"
    by (rule less_le_trans)
  then have "(of_int (int i) :: rat) < of_int \<lceil>effectiveRotation\<rceil>"
    by simp
  then have "int i < \<lceil>effectiveRotation\<rceil>"
    by (simp only: of_int_less_iff)
  then have "i < nat \<lceil>effectiveRotation\<rceil>"
    by simp
  then show "((Suc i, effectiveRotation,
               case elements of [] \<Rightarrow> [] | firstElement # rest \<Rightarrow> rest @ [firstElement]),
              (i, effectiveRotation, elements))
             \<in> measure (\<lambda>(i, r, elements). nat \<lceil>r\<rceil> - i)"
    by simp
qed

declare rotate_loop.simps [simp del]

fun is_prefix_increment_call :: "stmt \<Rightarrow> bool" where
  "is_prefix_increment_call (ExpressionStatement (CallExpression callee (firstArg # innerArgs))) =
     (case firstArg of UpdateExpression operator prefix argument \<Rightarrow> operator = ''++'' \<and> prefix
      | _ \<Rightarrow> False)"
| "is_prefix_increment_call _ = False"

text \<open>The scan of the statements of the function's body: the first match adds 1.\<close>

definition detect_increment :: "stmt list \<Rightarrow> jsnumber \<Rightarrow> jsnumber" where
  "detect_increment bodyStatements rotationAmount =
     (if list_ex is_prefix_increment_call bodyStatements
      then js_plus rotationAmount (Finite 1) else rotationAmount)"

definition rotator_CallExpression ::
  "(stmt list \<Rightarrow> string) \<Rightarrow> nat \<Rightarrow> expr \<Rightarrow> rotator_world \<Rightarrow> rotator_world" where
  "rotator_CallExpression JSON_stringify path nd w =
     (case nd of
        CallExpression callee args \<Rightarrow>
          (case callee of
             FunctionExpression params body \<Rightarrow>
               (case args of
                  [Identifier arrayName, NumericLiteral n] \<Rightarrow>
                    (let functionBodyCode = JSON_stringify body in
                     if \<not> str_includes functionBodyCode ''push''
                        \<or> \<not> str_includes functionBodyCode ''shift'' then w
                     else
                       (case bindings w arrayName of
                          Some (Declarator (VariableDeclarator did (Some (ArrayExpression elements)))) \<Rightarrow>
                            (let rotationAmount = detect_increment body n in
                             if elements = [] then w
                             else
                               (let effectiveRotation =
                                      js_remainder rotationAmount (Finite (of_nat (length elements)));
                                    elements' =
                                      (case effectiveRotation of
                                         None \<Rightarrow> elements
                                       | Some r \<Rightarrow> rotate_loop 0 r elements)
                                in w\<lparr>bindings := (bindings w)(arrayName \<mapsto>
                                        Declarator (VariableDeclarator did (Some (ArrayExpression elements')))),
                                      removed := path # removed w,
                                      changes := changes w + 1\<rparr>))
                        | _ \<Rightarrow> w))
                | _ \<Rightarrow> w)
           | _ \<Rightarrow> w)
      | _ \<Rightarrow> w)"

text \<open>
  A serialiser for the examples: the identifier names and string values of the body in
  traversal order, separated by blanks.
\<close>

fun node_words :: "node \<Rightarrow> string" where
  "node_words (Expr (Identifier x)) = x @ '' ''"
| "node_words (Expr (StringLiteral v)) = v @ '' ''"
| "node_words _ = []"

definition sample_stringify :: "stmt list \<Rightarrow> string" where
  "sample_stringify body = concat (map node_words (concat (map subnodes_s body)))"

text \<open>
  The rotator of the documentation comment: \<^verbatim>\<open>(function (e, f) { var g = function (h)
  { while (--h) { e['push'](e['shift']()); } }; g(++f); })(a, 2)\<close>.
\<close>

definition sample_rotator_body :: "stmt list" where
  "sample_rotator_body =
     [VariableDeclaration [VariableDeclarator (Identifier ''g'')
        (Some (FunctionExpression [Identifier ''h'']
           [OtherStatement ''WhileStatement''
              [ChildExpression (UpdateExpression ''--'' True (Identifier ''h'')),
               ChildStatement (OtherStatement ''BlockStatement''
                 [ChildStatement (ExpressionStatement
                    (CallExpression (MemberExpression (Identifier ''e'') (StringLiteral ''push'') True)
                       [CallExpression (MemberExpression (Identifier ''e'') (StringLiteral ''shift'') True)
                          []]))])]]))],
      ExpressionStatement (CallExpression (Identifier ''g'')
         [UpdateExpression ''++'' True (Identifier ''f'')])]"

definition sample_rotator_call :: expr where
  "sample_rotator_call =
     CallExpression (FunctionExpression [Identifier ''e'', Identifier ''f''] sample_rotator_body)
       [Identifier ''a'', NumericLiteral (Finite 2)]"

definition sample_array_world :: "expr option list \<Rightarrow> rotator_world" where
  "sample_array_world elements =
     \<lparr>replaced = [], removed = [], changes = 0, thrown = None,
      bindings = [''a'' \<mapsto> Declarator (VariableDeclarator (Identifier ''a'')
                     (Some (ArrayExpression elements)))]\<rparr>"

text \<open>
  The claimed test for the extra rotation, in the spec's words: some call anywhere
  inside the function has a prefix \<^verbatim>\<open>++\<close> update expression as its first argument. The
  handler's own test is in \<open>detect_increment\<close>.
\<close>

definition is_increment_call_node :: "node \<Rightarrow> bool" where
  "is_increment_call_node nd =
     (case nd of
        Expr (CallExpression callee (UpdateExpression operator prefix argument # innerArgs)) \<Rightarrow>
          operator = ''++'' \<and> prefix
      | _ \<Rightarrow> False)"

definition claimed_increment :: "stmt list \<Rightarrow> nat" where
  "claimed_increment body =
     (if list_ex is_increment_call_node (concat (map subnodes_s body)) then 1 else 0)"

text \<open>
  The same rotator with its inner call inside a block:
  \<^verbatim>\<open>(function (e, f) { var g = ...; { g(++f); } })(a, 2)\<close>.
\<close>

definition sample_nested_body :: "stmt list" where
  "sample_nested_body =
     [hd sample_rotator_body,
      OtherStatement ''BlockStatement''
        [ChildStatement (ExpressionStatement (CallExpression (Identifier ''g'')
           [UpdateExpression ''++'' True (Identifier ''f'')]))]]"

definition sample_nested_call :: expr where
  "sample_nested_call =
     CallExpression (FunctionExpression [Identifier ''e'', Identifier ''f''] sample_nested_body)
       [Identifier ''a'', NumericLiteral (Finite 2)]"

definition sample_four :: "expr option list" where
  "sample_four = [Some (StringLiteral ''one''), Some (StringLiteral ''two''),
                  Some (StringLiteral ''three''), Some (StringLiteral ''four'')]"

section \<open>Abba: the proxy inliner\<close>

text \<open>
  The visitor factory's variables, shared by its handlers. A path is named by a number;
  \<open>replaced\<close> and \<open>removed\<close> record what the handlers did to the tree.
\<close>

record proxy_state =
  proxyName :: string
  proxyPath :: "nat option"
  arrayName :: string
  offset :: jsnumber
  stringArray :: "string list"

definition initial_proxy_state :: proxy_state where
  "initial_proxy_state =
     \<lparr>proxyName = [], proxyPath = None, arrayName = [], offset = Finite 0, stringArray = []\<rparr>"

definition inner_VariableDeclarator :: "string \<Rightarrow> node \<Rightarrow> string" where
  "inner_VariableDeclarator detectedArrayName nd =
     (case nd of
        Declarator (VariableDeclarator ident (Some (MemberExpression object property computed))) \<Rightarrow>
          (case object of
             Identifier name \<Rightarrow> if computed then name else detectedArrayName
           | _ \<Rightarrow> detectedArrayName)
      | _ \<Rightarrow> detectedArrayName)"

definition inner_AssignmentExpression :: "jsnumber \<Rightarrow> node \<Rightarrow> jsnumber" where
  "inner_AssignmentExpression detectedOffset nd =
     (case nd of
        Expr (AssignmentExpression operator left (BinaryExpression bop bleft (NumericLiteral v))) \<Rightarrow>
          if bop = ''-'' then v else detectedOffset
      | _ \<Rightarrow> detectedOffset)"

definition extract_string :: "expr option \<Rightarrow> string" where
  "extract_string el = (case el of Some (StringLiteral v) \<Rightarrow> v | _ \<Rightarrow> [])"

definition analyzeProxyFunction ::
  "string \<Rightarrow> expr list \<Rightarrow> stmt list \<Rightarrow> scope \<Rightarrow> proxy_state \<Rightarrow> bool \<times> proxy_state" where
  "analyzeProxyFunction funcName params body scp st =
     (if length params < 1 \<or> length params > 2 then (False, st)
      else
        (let visited = concat (map subnodes_s body);
             detectedArrayName = foldl inner_VariableDeclarator [] visited;
             detectedOffset = foldl inner_AssignmentExpression (Finite 0) visited
         in if detectedArrayName = [] then (False, st)
            else
              (case scp detectedArrayName of
                 Some (Declarator (VariableDeclarator ident (Some (ArrayExpression elements)))) \<Rightarrow>
                   (True, st\<lparr>proxyName := funcName, arrayName := detectedArrayName,
                              offset := detectedOffset,
                              stringArray := map extract_string elements\<rparr>)
               | _ \<Rightarrow> (False, st))))"

definition proxy_FunctionDeclaration ::
  "nat \<Rightarrow> stmt \<Rightarrow> scope \<Rightarrow> proxy_state \<Rightarrow> proxy_state" where
  "proxy_FunctionDeclaration path nd scp st =
     (if proxyName st \<noteq> [] then st
      else
        (case nd of
           FunctionDeclaration (Some funcName) params body \<Rightarrow>
             (case analyzeProxyFunction funcName params body scp st of
                (True, st') \<Rightarrow> st'\<lparr>proxyPath := Some path\<rparr>
              | (False, st') \<Rightarrow> st')
         | _ \<Rightarrow> st))"

definition proxy_VariableDeclarator ::
  "nat \<Rightarrow> declarator \<Rightarrow> scope \<Rightarrow> proxy_state \<Rightarrow> proxy_state" where
  "proxy_VariableDeclarator path nd scp st =
     (if proxyName st \<noteq> [] then st
      else
        (case nd of
           VariableDeclarator (Identifier funcName) (Some (FunctionExpression params body)) \<Rightarrow>
             (case analyzeProxyFunction funcName params body scp st of
                (True, st') \<Rightarrow> st'\<lparr>proxyPath := Some path\<rparr>
              | (False, st') \<Rightarrow> st')
         | _ \<Rightarrow> st))"

text \<open>
  The index a call's first argument gives: \<open>None\<close> when it is neither a string literal
  nor a numeric literal.
\<close>

definition argument_index :: "expr \<Rightarrow> jsnumber option" where
  "argument_index firstArg =
     (case firstArg of
        StringLiteral val \<Rightarrow>
          Some (if startsWith val ''0x'' \<or> startsWith val ''0X''
                then parseInt val 16 else parseInt val 10)
      | NumericLiteral v \<Rightarrow> Some v
      | _ \<Rightarrow> None)"

text \<open>
  The exit handler of a call expression. After the range test the string is read with
  \<^verbatim>\<open>stringArray[finalIndex]\<close> and its \<^verbatim>\<open>substring\<close> is taken for the debug message before
  the replacement: when the index is within the range but is no integer (or is \<^verbatim>\<open>NaN\<close>,
  which passes both comparisons), the string is \<^verbatim>\<open>undefined\<close> and that call throws a
  \<^verbatim>\<open>TypeError\<close>.
\<close>

definition proxy_CallExpression_exit ::
  "proxy_state \<Rightarrow> nat \<Rightarrow> expr \<Rightarrow> effects \<Rightarrow> effects" where
  "proxy_CallExpression_exit st path nd w =
     (if proxyName st = [] \<or> stringArray st = [] then w
      else
        (case nd of
           CallExpression callee args \<Rightarrow>
             (case callee of
                Identifier name \<Rightarrow>
                  if name \<noteq> proxyName st then w
                  else
                    (case args of
                       [] \<Rightarrow> w
                     | firstArg # _ \<Rightarrow>
                         (case argument_index firstArg of
                            None \<Rightarrow> w
                          | Some index \<Rightarrow>
                              if index = NaN then w
                              else
                                (let finalIndex = js_minus index (offset st) in
                                 if js_less finalIndex (Finite 0)
                                    \<or> js_greater_equal finalIndex
                                         (Finite (of_nat (length (stringArray st))))
                                 then w
                                 else
                                   (case array_get (stringArray st) finalIndex of
                                      None \<Rightarrow> w\<lparr>thrown := Some ''TypeError''\<rparr>
                                    | Some replacementString \<Rightarrow>
                                        w\<lparr>replaced := (path, StringLiteral replacementString)
                                                          # replaced w,
                                          changes := changes w + 1\<rparr>))))
              | _ \<Rightarrow> w)
         | _ \<Rightarrow> w))"

definition proxy_Program_exit :: "proxy_state \<Rightarrow> effects \<Rightarrow> effects" where
  "proxy_Program_exit st w =
     (case proxyPath st of
        Some p \<Rightarrow> if proxyName st \<noteq> [] then w\<lparr>removed := p # removed w, changes := changes w + 1\<rparr>
                  else w
      | None \<Rightarrow> w)"

text \<open>
  One application of the transform is the traversal calling the handlers in its own
  order: a list of events, each with the path, its node and (for the declarations) the
  scope of the path. Once a handler has thrown, the traversal is over and no further
  handler is called.
\<close>

datatype event =
    Enter_FunctionDeclaration nat stmt scope
  | Enter_VariableDeclarator nat declarator scope
  | Exit_CallExpression nat expr
  | Exit_Program

fun proxy_handlers :: "proxy_state \<times> effects \<Rightarrow> event \<Rightarrow> proxy_state \<times> effects" where
  "proxy_handlers (st, w) (Enter_FunctionDeclaration path nd scp) =
     (proxy_FunctionDeclaration path nd scp st, w)"
| "proxy_handlers (st, w) (Enter_VariableDeclarator path nd scp) =
     (proxy_VariableDeclarator path nd scp st, w)"
| "proxy_handlers (st, w) (Exit_CallExpression path nd) =
     (st, proxy_CallExpression_exit st path nd w)"
| "proxy_handlers (st, w) Exit_Program = (st, proxy_Program_exit st w)"

definition proxy_visitor :: "proxy_state \<times> effects \<Rightarrow> event \<Rightarrow> proxy_state \<times> effects" where
  "proxy_visitor sw ev = (if thrown (snd sw) \<noteq> None then sw else proxy_handlers sw ev)"

definition proxy_inliner :: "event list \<Rightarrow> effects \<Rightarrow> proxy_state \<times> effects" where
  "proxy_inliner events w = foldl proxy_visitor (initial_proxy_state, w) events"

text \<open>The path an event is about, and what an event does to the tree once a proxy
  is known: only the exit of a call expression does anything, and nothing does once a
  handler has thrown.\<close>

fun event_path :: "event \<Rightarrow> nat option" where
  "event_path (Enter_FunctionDeclaration path nd scp) = Some path"
| "event_path (Enter_VariableDeclarator path nd scp) = Some path"
| "event_path (Exit_CallExpression path nd) = Some path"
| "event_path Exit_Program = None"

definition inline_with :: "proxy_state \<Rightarrow> effects \<Rightarrow> event \<Rightarrow> effects" where
  "inline_with st w ev =
     (if thrown w \<noteq> None then w
      else case ev of Exit_CallExpression path nd \<Rightarrow> proxy_CallExpression_exit st path nd w
           | _ \<Rightarrow> w)"

text \<open>
  The proxy of the documentation comment, \<^verbatim>\<open>function b(d, e) { d = d - 0x10; var f = a[d];
  return f; }\<close> over \<^verbatim>\<open>a = ["X", "Y", "Z"]\<close>, a second candidate \<^verbatim>\<open>c\<close> over another array,
  and calls of both.
\<close>

definition sample_proxy_body :: "string \<Rightarrow> jsnumber \<Rightarrow> stmt list" where
  "sample_proxy_body arr k =
     [ExpressionStatement (AssignmentExpression ''='' (Identifier ''d'')
        (BinaryExpression ''-'' (Identifier ''d'') (NumericLiteral k))),
      VariableDeclaration [VariableDeclarator (Identifier ''f'')
        (Some (MemberExpression (Identifier arr) (Identifier ''d'') True))],
      ReturnStatement (Some (Identifier ''f''))]"

definition sample_scope :: scope where
  "sample_scope =
     [''a'' \<mapsto> Declarator (VariableDeclarator (Identifier ''a'')
         (Some (ArrayExpression [Some (StringLiteral ''X''), Some (StringLiteral ''Y''),
                                 Some (StringLiteral ''Z'')]))),
      ''z'' \<mapsto> Declarator (VariableDeclarator (Identifier ''z'')
         (Some (ArrayExpression [Some (StringLiteral ''P''), Some (StringLiteral ''Q'')])))]"

definition sample_events :: "event list" where
  "sample_events =
     [Enter_FunctionDeclaration 2
        (FunctionDeclaration (Some ''b'') [Identifier ''d'', Identifier ''e'']
           (sample_proxy_body ''a'' (Finite 16)))
        sample_scope,
      Enter_VariableDeclarator 3
        (VariableDeclarator (Identifier ''f'') (Some (MemberExpression (Identifier ''a'') (Identifier ''d'') True)))
        sample_scope,
      Enter_VariableDeclarator 4
        (VariableDeclarator (Identifier ''c'')
           (Some (FunctionExpression [Identifier ''d''] (sample_proxy_body ''z'' (Finite 0)))))
        sample_scope,
      Exit_CallExpression 5 (CallExpression (Identifier ''b'') [NumericLiteral (Finite 17)]),
      Exit_CallExpression 6 (CallExpression (Identifier ''b'') [StringLiteral ''0x12'']),
      Exit_CallExpression 7 (CallExpression (Identifier ''b'') [NumericLiteral (Finite 32)]),
      Exit_CallExpression 8 (CallExpression (Identifier ''c'') [NumericLiteral (Finite 0)]),
      Exit_Program]"

definition sample_proxy_state :: proxy_state where
  "sample_proxy_state =
     \<lparr>proxyName = ''b'', proxyPath = Some 2, arrayName = ''a'', offset = Finite 16,
      stringArray = [''X'', ''Y'', ''Z'']\<rparr>"

definition no_effects :: effects where
  "no_effects = \<lparr>replaced = [], removed = [], changes = 0, thrown = None\<rparr>"

section \<open>Abba: dead-code removal\<close>

text \<open>
  A reference path, as far as \<open>isValidReference\<close> reads it: the node types of the paths
  above it, from its parent outwards (\<open>None\<close> for a path that has lost its node);
  \<open>BrokenPath\<close> is a path on which the walk upwards throws. A binding carries its
  \<^verbatim>\<open>referenced\<close> flag, its two path lists, the path of its declaration and the node
  there. The bindings a destructuring declarator declares share its path and its node.
\<close>

datatype refpath = RefPath "string option list" | BrokenPath

definition isValidReference :: "refpath \<Rightarrow> bool" where
  "isValidReference refPath =
     (case refPath of
        RefPath ancestors \<Rightarrow> list_ex (\<lambda>p. p = Some ''Program'') ancestors
      | BrokenPath \<Rightarrow> False)"

record binding =
  referenced :: bool
  referencePaths :: "refpath list"
  constantViolations :: "refpath list"
  bindingPath :: nat
  bindingNode :: node

text \<open>
  The test \<open>processScope\<close> makes of the declaration of a binding without live
  references: a function declaration is removed, a variable declarator is removed when
  it has no initializer or the purity test \<open>isPure\<close> accepts the initializer. That test
  is the traversal library's \<^verbatim>\<open>NodePath.isPure\<close>, a parameter here.
\<close>

definition removes_declaration :: "(expr \<Rightarrow> bool) \<Rightarrow> node \<Rightarrow> bool" where
  "removes_declaration isPure nd =
     (case nd of
        Stmt (FunctionDeclaration fid params body) \<Rightarrow> True
      | Declarator (VariableDeclarator ident init) \<Rightarrow>
          (case init of None \<Rightarrow> True | Some e \<Rightarrow> isPure e)
      | _ \<Rightarrow> False)"

text \<open>
  \<open>processScope\<close> of the run variant: one loop over the bindings of a scope, in the
  order of their names in the scope's table. A removal records the declaration's path,
  counts one change and appends the name to \<open>removedBindings\<close>. The removal of a path
  takes the bindings its node declares out of the scope's table, so the loop does not
  come to those it has not visited yet. Every removal of the pass is made by this
  loop.
\<close>

function processBindings ::
  "(expr \<Rightarrow> bool) \<Rightarrow> (string \<times> binding) list \<Rightarrow> bool \<times> effects \<times> string list
     \<Rightarrow> bool \<times> effects \<times> string list" where
  "processBindings isPure [] acc = acc"
| "processBindings isPure ((name, b) # rest) (changed, state, removedBindings) =
     (let validRefs = filter isValidReference (referencePaths b);
          validConstantViolations = filter isValidReference (constantViolations b);
          totalValidRefs = length validRefs + length validConstantViolations
      in if totalValidRefs > 0 then processBindings isPure rest (changed, state, removedBindings)
         else if removes_declaration isPure (bindingNode b) then
           processBindings isPure
             (filter (\<lambda>entry. bindingPath (snd entry) \<noteq> bindingPath b) rest)
             (True,
              state\<lparr>removed := bindingPath b # removed state, changes := changes state + 1\<rparr>,
              removedBindings @ [name])
         else processBindings isPure rest (changed, state, removedBindings))"
  by pat_completeness auto

termination
  by (relation "measure (\<lambda>(isPure, scopeBindings, acc). length scopeBindings)")
     (auto simp: le_imp_less_Suc)

definition processScope ::
  "(expr \<Rightarrow> bool) \<Rightarrow> (string \<times> binding) list \<Rightarrow> effects \<Rightarrow> string list
     \<Rightarrow> bool \<times> effects \<times> string list" where
  "processScope isPure scopeBindings state removedBindings =
     processBindings isPure scopeBindings (False, state, removedBindings)"










section \<open>Abba: the string-array extractor\<close>

text \<open>
  The value an evaluation returns, as far as the handler reads it: whether it is an
  array (\<^verbatim>\<open>Array.isArray\<close>), and then its entries, \<open>None\<close> for a missing one (the hole of
  a sparse array). The arrays are the ordinary ones, with the built-in \<^verbatim>\<open>slice\<close> and
  \<^verbatim>\<open>map\<close>. The handler reads an entry through \<^verbatim>\<open>String(item)\<close> only, and calls it at most
  twice on an entry: an entry is a string, on which \<^verbatim>\<open>String\<close> is the identity, or any
  other value, given by what the first and the second call of \<^verbatim>\<open>String\<close> on it do, each
  of which is to return a string or to throw (\<open>Inl\<close> with the exception's name).
\<close>

datatype item = StringItem string | OtherItem "string + string" "string + string"

datatype jsvalue = ArrayValue "item option list" | OtherValue

text \<open>The call of \<^verbatim>\<open>String\<close> on an item that \<open>k\<close> calls have preceded.\<close>

fun js_String :: "nat \<Rightarrow> item \<Rightarrow> string + string" where
  "js_String k (StringItem s) = Inr s"
| "js_String k (OtherItem first second) = (if k = 0 then first else second)"







text \<open>
  \<^verbatim>\<open>array.map(String)\<close> from the entry at index \<open>i\<close> on, where \<open>calls j\<close> is the number of
  calls of \<^verbatim>\<open>String\<close> that the entry at index \<open>j\<close> has had before: the entries in order, a
  missing entry staying missing (\<^verbatim>\<open>map\<close> skips it), the first \<^verbatim>\<open>String\<close> that throws ending
  the whole.
\<close>

fun map_String :: "(nat \<Rightarrow> nat) \<Rightarrow> nat \<Rightarrow> item option list \<Rightarrow> string + string option list" where
  "map_String calls i [] = Inr []"
| "map_String calls i (None # rest) =
     (case map_String calls (Suc i) rest of
        Inl exception \<Rightarrow> Inl exception
      | Inr strings \<Rightarrow> Inr (None # strings))"
| "map_String calls i (Some item # rest) =
     (case js_String (calls i) item of
        Inl exception \<Rightarrow> Inl exception
      | Inr s \<Rightarrow>
          (case map_String calls (Suc i) rest of
             Inl exception \<Rightarrow> Inl exception
           | Inr strings \<Rightarrow> Inr (Some s # strings)))"












section \<open>The obfuscator.io target\<close>

text \<open>
  The tree as a store: a path is a number, the store gives the node at a path, and
  removing a path empties it.
\<close>

type_synonym tree = "nat \<Rightarrow> node option"

definition remove_path :: "nat \<Rightarrow> tree \<Rightarrow> tree" where
  "remove_path p t = t(p := None)"

text \<open>
  The sandbox handed to a target: from source text to the value or the failure.
\<close>

type_synonym sandbox_handle = "string \<Rightarrow> string + jsvalue"

text \<open>
  The context of a running target: the tree, the change counter of its
  \<^verbatim>\<open>TransformState\<close>, the optional sandbox, and the messages given to \<^verbatim>\<open>log\<close>.
\<close>

record deobfuscator_context =
  ctx_ast :: tree
  ctx_changes :: nat
  ctx_sandbox :: "sandbox_handle option"
  ctx_log :: "string list"

text \<open>The descriptors the probes return; each holds the path of its declaration.\<close>

record string_array =
  sa_path :: nat
  originalName :: string
  sa_length :: nat

record decoder =
  decoder_path :: nat
  decoder_name :: string

record vm_decoder =
  vm_sandbox :: sandbox_handle
  vm_stringArray :: string_array
  vm_decoders :: "decoder list"
  vm_rotator :: "nat option"

text \<open>
  The probes and transforms the target imports from modules outside these sources, as
  parameters: a transform applied to the tree gives the new tree and its change count.
  \<open>cleanup_transforms\<close> is the one pass over \<^verbatim>\<open>mergeStrings\<close>, \<^verbatim>\<open>deadCode\<close>,
  \<^verbatim>\<open>controlFlowObject\<close> and \<^verbatim>\<open>controlFlowSwitch\<close>.
\<close>

record externals =
  findStringArray :: "tree \<Rightarrow> string_array option"
  findArrayRotator :: "tree \<Rightarrow> string_array \<Rightarrow> nat option"
  findDecoders :: "tree \<Rightarrow> string_array \<Rightarrow> decoder list"
  inlineObjectProps :: "tree \<Rightarrow> tree \<times> nat"
  inlineDecoderWrappers :: "nat \<Rightarrow> tree \<Rightarrow> tree \<times> nat"
  inlineDecodedStrings :: "vm_decoder \<Rightarrow> tree \<Rightarrow> tree \<times> nat"
  cleanup_transforms :: "tree \<Rightarrow> tree \<times> nat"

definition apply_counted :: "(tree \<Rightarrow> tree \<times> nat) \<Rightarrow> deobfuscator_context \<Rightarrow> deobfuscator_context" where
  "apply_counted transform ctx =
     (case transform (ctx_ast ctx) of
        (t, n) \<Rightarrow> ctx\<lparr>ctx_ast := t, ctx_changes := ctx_changes ctx + n\<rparr>)"

definition log_message :: "string \<Rightarrow> deobfuscator_context \<Rightarrow> deobfuscator_context" where
  "log_message m ctx = ctx\<lparr>ctx_log := ctx_log ctx @ [m]\<rparr>"

text \<open>Lines 70 to 83 of the run: the three inlining steps.\<close>

definition inline_strings ::
  "externals \<Rightarrow> sandbox_handle \<Rightarrow> string_array \<Rightarrow> nat option \<Rightarrow> decoder list \<Rightarrow> deobfuscator_context \<Rightarrow> deobfuscator_context" where
  "inline_strings ext sb sarr rotator decoders ctx =
     (let ctx1 = apply_counted (inlineObjectProps ext) ctx;
          ctx2 = foldl (\<lambda>c d. apply_counted (inlineDecoderWrappers ext (decoder_path d)) c) ctx1 decoders;
          vm = \<lparr>vm_sandbox = sb, vm_stringArray = sarr, vm_decoders = decoders,
                vm_rotator = rotator\<rparr>
      in apply_counted (inlineDecodedStrings ext vm) ctx2)"

text \<open>Lines 85 to 90: the removals and their count.\<close>

definition remove_infrastructure ::
  "string_array \<Rightarrow> nat option \<Rightarrow> decoder list \<Rightarrow> deobfuscator_context \<Rightarrow> deobfuscator_context" where
  "remove_infrastructure sarr rotator decoders ctx =
     (if length decoders > 0 then
        (let t1 = remove_path (sa_path sarr) (ctx_ast ctx);
             t2 = (case rotator of None \<Rightarrow> t1 | Some r \<Rightarrow> remove_path r t1);
             t3 = foldl (\<lambda>t d. remove_path (decoder_path d) t) t2 decoders
         in ctx\<lparr>ctx_ast := t3, ctx_changes := ctx_changes ctx + (2 + length decoders)\<rparr>)
      else ctx)"

text \<open>The run of the target.\<close>

definition obfuscatorIO_run :: "externals \<Rightarrow> deobfuscator_context \<Rightarrow> deobfuscator_context" where
  "obfuscatorIO_run ext ctx =
     (case ctx_sandbox ctx of
        None \<Rightarrow> ctx
      | Some sb \<Rightarrow>
          (case findStringArray ext (ctx_ast ctx) of
             None \<Rightarrow> log_message ''String Array: no'' ctx
           | Some sarr \<Rightarrow>
               (let ctx0 = log_message (''String Array: '' @ originalName sarr
                              @ '', length '' @ decimal (sa_length sarr)) ctx;
                    rotator = findArrayRotator ext (ctx_ast ctx0) sarr;
                    ctx1 = log_message (''String Array Rotate: ''
                              @ (if rotator \<noteq> None then ''yes'' else ''no'')) ctx0;
                    decoders = findDecoders ext (ctx_ast ctx1) sarr;
                    ctx2 = log_message (''String Array Decoders: ''
                              @ join '', '' (map decoder_name decoders)) ctx1;
                    ctx3 = inline_strings ext sb sarr rotator decoders ctx2;
                    ctx4 = remove_infrastructure sarr rotator decoders ctx3
                in apply_counted (cleanup_transforms ext) ctx4)))"

text \<open>
  For the examples: an array \<^verbatim>\<open>A\<close> at path 1, its rotator at path 2, a decoder \<^verbatim>\<open>f\<close> at
  path 3 and a call of it at path 4; probes that find them while they are in the tree.
\<close>

definition sample_tree :: tree where
  "sample_tree =
     [1 \<mapsto> Declarator (VariableDeclarator (Identifier ''A'')
            (Some (ArrayExpression [Some (StringLiteral ''hello''), Some (StringLiteral ''world'')]))),
      2 \<mapsto> Expr sample_rotator_call,
      3 \<mapsto> Stmt (FunctionDeclaration (Some ''f'') [Identifier ''i'']
            [ReturnStatement (Some (MemberExpression (Identifier ''A'') (Identifier ''i'') True))]),
      4 \<mapsto> Expr (CallExpression (Identifier ''f'') [NumericLiteral (Finite 0)])]"

definition sample_string_array :: string_array where
  "sample_string_array = \<lparr>sa_path = 1, originalName = ''A'', sa_length = 2\<rparr>"

definition sample_decoder :: decoder where
  "sample_decoder = \<lparr>decoder_path = 3, decoder_name = ''f''\<rparr>"

definition sample_externals :: externals where
  "sample_externals =
     \<lparr>findStringArray = (\<lambda>t. if t 1 = None then None else Some sample_string_array),
      findArrayRotator = (\<lambda>t a. if t 2 = None then None else Some 2),
      findDecoders = (\<lambda>t a. if t 3 = None then [] else [sample_decoder]),
      inlineObjectProps = (\<lambda>t. (t, 0)),
      inlineDecoderWrappers = (\<lambda>p t. (t, 0)),
      inlineDecodedStrings = (\<lambda>vm t. (t(4 \<mapsto> Expr (StringLiteral ''hello'')), 1)),
      cleanup_transforms = (\<lambda>t. (t, 0))\<rparr>"

definition sample_context :: "sandbox_handle option \<Rightarrow> deobfuscator_context" where
  "sample_context sb = \<lparr>ctx_ast = sample_tree, ctx_changes = 0, ctx_sandbox = sb, ctx_log = []\<rparr>"

definition sample_evaluator :: sandbox_handle where
  "sample_evaluator code = Inl ''ReferenceError''"

section \<open>The registry and the runner\<close>






















section \<open>Properties\<close>

subsection \<open>Numbers\<close>

lemma rotate_loop_rotate: "rotate_loop i r xs = rotate (nat \<lceil>r\<rceil> - i) xs"
proof (induction i r xs rule: rotate_loop.induct)
  case (1 i r xs)
  show ?case
  proof (cases "of_nat i < r")
    case True
    have "r \<le> of_int \<lceil>r\<rceil>"
      by (rule le_of_int_ceiling)
    with True have "(of_nat i :: rat) < of_int \<lceil>r\<rceil>"
      by (rule less_le_trans)
    then have "(of_int (int i) :: rat) < of_int \<lceil>r\<rceil>"
      by simp
    then have "int i < \<lceil>r\<rceil>"
      by (simp only: of_int_less_iff)
    then have lt: "i < nat \<lceil>r\<rceil>"
      by simp
    have step: "(case xs of [] \<Rightarrow> [] | a # rest \<Rightarrow> rest @ [a]) = rotate1 xs"
      by (cases xs) simp_all
    have "rotate_loop i r xs = rotate_loop (Suc i) r (rotate1 xs)"
      using True step by (subst rotate_loop.simps) simp
    also have "\<dots> = rotate (nat \<lceil>r\<rceil> - Suc i) (rotate1 xs)"
      using 1[OF True] step by simp
    also have "\<dots> = rotate (Suc (nat \<lceil>r\<rceil> - Suc i)) xs"
      by (simp add: rotate1_rotate_swap)
    also have "Suc (nat \<lceil>r\<rceil> - Suc i) = nat \<lceil>r\<rceil> - i"
      using lt by simp
    finally show ?thesis .
  next
    case False
    then have "r \<le> of_int (int i)"
      by simp
    then have "\<lceil>r\<rceil> \<le> int i"
      by (simp only: ceiling_le_iff)
    then have "nat \<lceil>r\<rceil> - i = 0"
      by simp
    moreover have "rotate_loop i r xs = xs"
      using False by (subst rotate_loop.simps) simp
    ultimately show ?thesis
      by simp
  qed
qed

lemma floor_log2_nat:
  assumes "0 < n"
  shows "floor_log2 (of_nat n) = bitlen (int n) - 1"
proof -
  have q: "quotient_of (of_nat n :: rat) = (int n, 1)"
    using quotient_of_int[of "int n"] by (simp add: Rat.of_int_def)
  have b1: "bitlen 1 = 1"
    by (simp add: bitlen_alt_def)
  have pos: "0 < int n"
    using assms by simp
  have ge: "1 \<le> bitlen (int n)"
    using pos by (simp add: bitlen_alt_def)
  have "2 ^ nat (bitlen (int n) - 1) \<le> int n"
    using bitlen_bounds[OF pos] by simp
  then have "(of_int (2 ^ nat (bitlen (int n) - 1)) :: rat) \<le> of_int (int n)"
    by (simp only: of_int_le_iff)
  then have "pow2 (bitlen (int n) - 1) \<le> of_nat n"
    using ge by (simp add: pow2_def)
  then show ?thesis
    by (simp add: floor_log2_def q b1 Let_def)
qed

lemma round_double_nat:
  assumes "n < 2 ^ 53"
  shows "round_double (of_nat n) = Finite (of_nat n)"
proof (cases "n = 0")
  case True
  then show ?thesis
    by (simp add: round_double_def)
next
  case False
  then have pos: "0 < n"
    by simp
  define k where "k = bitlen (int n) - 1"
  have fl: "floor_log2 (of_nat n) = k"
    using floor_log2_nat[OF pos] by (simp add: k_def)
  have "bitlen (int n) \<le> 53"
    using assms less_power_nat_iff_bitlen[of n 53] by simp
  moreover have "1 \<le> bitlen (int n)"
    using pos by (simp add: bitlen_alt_def)
  ultimately have k: "0 \<le> k" "k \<le> 52"
    by (simp_all add: k_def)
  define e where "e = nat (52 - k)"
  have u: "pow2 (max k (- 1022) - 52) = 1 / 2 ^ e"
    using k by (auto simp: pow2_def e_def max_def)
  have q: "(of_nat n :: rat) / (1 / 2 ^ e) = of_int (int n * 2 ^ e)"
    by simp
  have undo: "(of_int (int n * 2 ^ e) :: rat) * (1 / 2 ^ e) = of_nat n"
    by simp
  have ne: "(of_nat n :: rat) \<noteq> 0" "\<bar>of_nat n :: rat\<bar> = of_nat n" "sgn (of_nat n :: rat) = 1"
    "(0 :: rat) < of_nat n"
    using pos by simp_all
  show ?thesis
    unfolding round_double_def Let_def ne(2) fl u q
    using k ne(1,3,4) undo by (simp del: of_int_mult of_int_power)
qed

lemma js_remainder_nat:
  assumes "0 < L"
  shows "js_remainder (Finite (of_nat R)) (Finite (of_nat L)) = Some (of_nat (R mod L))"
proof -
  have f: "\<lfloor>(of_nat R :: rat) / of_nat L\<rfloor> = int (R div L)"
    by (simp add: floor_divide_of_nat_eq)
  have "(of_nat R :: rat) - of_nat L * of_int (int (R div L)) = of_nat (R mod L)"
  proof -
    have "R = L * (R div L) + R mod L"
      by simp
    then have "(of_nat R :: rat) = of_nat (L * (R div L) + R mod L)"
      by simp
    then show ?thesis
      by (simp only: of_nat_add of_nat_mult of_int_of_nat_eq)
  qed
  then show ?thesis
    using assms f by simp
qed

text \<open>
  Where the arithmetic of doubles departs from that of the integers: above \<open>2 ^ 53\<close>
  adding 1 can be lost, and a long string of digits is parsed to the nearest double.
\<close>

lemma rounding_samples:
  "js_plus (Finite (10 ^ 20)) (Finite 1) = Finite (10 ^ 20)"
  "js_plus (Finite (2 ^ 53)) (Finite 1) = Finite (2 ^ 53)"
  "parseInt ''9007199254740993'' 10 = Finite (2 ^ 53)"
  "parseInt ''100000000000000000000000'' 10 = Finite (10 ^ 23 - 8388608)"
  by code_simp+

subsection \<open>The rotator\<close>

lemma drop_take_as_indices:
  assumes "k \<le> length xs"
  shows "drop k xs @ take k xs = map (\<lambda>j. xs ! j) ([k..<length xs] @ [0..<k])"
proof -
  have "drop k (map (\<lambda>j. xs ! j) [0..<length xs]) = map (\<lambda>j. xs ! j) [k..<length xs]"
    by (simp add: drop_map)
  then have d: "drop k xs = map (\<lambda>j. xs ! j) [k..<length xs]"
    by (simp add: map_nth)
  have "take k (map (\<lambda>j. xs ! j) [0..<length xs]) = map (\<lambda>j. xs ! j) [0..<k]"
    using assms by (simp add: take_map)
  then have t: "take k xs = map (\<lambda>j. xs ! j) [0..<k]"
    by (simp add: map_nth)
  show ?thesis
    using d t by simp
qed

lemma sample_body_mentions:
  "str_includes (sample_stringify sample_rotator_body) ''push''"
  "str_includes (sample_stringify sample_rotator_body) ''shift''"
  by (simp_all add: sample_stringify_def sample_rotator_body_def startsWith_def)

lemma rotate_loop_nat: "rotate_loop 0 (of_nat k) xs = rotate k xs"
  by (simp add: rotate_loop_rotate)

text \<open>A rotation count that is no integer is rounded up by the loop.\<close>

lemma rotate_loop_half: "rotate_loop 0 (1 / 2) xs = rotate1 xs"
proof -
  have "\<lceil>1 / 2 :: rat\<rceil> = 1"
    by (simp add: ceiling_eq_iff)
  then show ?thesis
    by (simp add: rotate_loop_rotate)
qed

lemma rotate_loop_numeral: "rotate_loop 0 (numeral k) xs = rotate (numeral k) xs"
  using rotate_loop_nat[of "numeral k" xs] by simp

text \<open>
  C1, as stated, fails: the handler looks for the prefix \<^verbatim>\<open>++\<close> only in the calls that
  are expression statements directly in the function's body. With the inner call
  inside a block the rotation stays \<open>n = 2\<close>, while the claim's \<open>R\<close> is 3.
\<close>

theorem rotator_nested_increment_counterexample:
  "claimed_increment sample_nested_body = 1
   \<and> bindings (rotator_CallExpression sample_stringify 7 sample_nested_call
         (sample_array_world sample_four)) ''a''
       \<noteq> Some (Declarator (VariableDeclarator (Identifier ''a'') (Some (ArrayExpression
           (map (\<lambda>j. sample_four ! j)
              ([(2 + claimed_increment sample_nested_body) mod length sample_four
                  ..<length sample_four]
               @ [0..<(2 + claimed_increment sample_nested_body) mod length sample_four]))))))"
proof -
  have c: "claimed_increment sample_nested_body = 1"
    by (simp add: claimed_increment_def sample_nested_body_def sample_rotator_body_def
        is_increment_call_node_def)
  have m: "str_includes (sample_stringify sample_nested_body) ''push''"
    "str_includes (sample_stringify sample_nested_body) ''shift''"
    by (simp_all add: sample_stringify_def sample_nested_body_def sample_rotator_body_def
        startsWith_def)
  have d: "detect_increment sample_nested_body (Finite 2) = Finite 2"
    by (simp add: detect_increment_def sample_nested_body_def sample_rotator_body_def)
  have e: "js_remainder (Finite 2) (Finite 4) = Some 2"
    using js_remainder_nat[of 4 2] by simp
  have u: "[3..<4] @ [0..<3] = [3, 0, 1, 2::nat]"
    by (simp add: upt_rec)
  have r: "bindings (rotator_CallExpression sample_stringify 7 sample_nested_call
         (sample_array_world sample_four)) ''a''
       = Some (Declarator (VariableDeclarator (Identifier ''a'') (Some (ArrayExpression
           [Some (StringLiteral ''three''), Some (StringLiteral ''four''),
            Some (StringLiteral ''one''), Some (StringLiteral ''two'')]))))"
    unfolding rotator_CallExpression_def sample_nested_call_def
    by (simp add: sample_array_world_def sample_four_def m d e Let_def rotate_loop_numeral
        rotate_drop_take del: js_remainder.simps)
  show ?thesis
    using c r u by (simp add: sample_four_def)
qed

text \<open>
  C1, amended. A call the rotator matches (callee a function expression, arguments an
  identifier bound to a variable declarator with a non-empty array expression and a
  numeric literal whose value is a natural number \<open>n\<close> with \<open>n + 1 < 2 ^ 53\<close>, body
  mentioning \<^verbatim>\<open>push\<close> and \<^verbatim>\<open>shift\<close>): with \<open>R\<close> = \<open>n\<close> plus 1 if a statement directly in
  the function's body is an expression statement calling with a prefix \<^verbatim>\<open>++\<close> update
  expression as first argument, and \<open>L\<close> the number of elements, the element list
  afterwards is the original one read at the indices
  \<open>R mod L, ..., L - 1, 0, ..., R mod L - 1\<close>, the call's path is removed and one
  change is counted.
\<close>

theorem rotator_permutes:
  assumes "nd = CallExpression (FunctionExpression params body)
                  [Identifier arr, NumericLiteral (Finite (of_nat n))]"
    and "n + 1 < 2 ^ 53"
    and "str_includes (JSON_stringify body) ''push''"
    and "str_includes (JSON_stringify body) ''shift''"
    and "bindings w arr =
           Some (Declarator (VariableDeclarator did (Some (ArrayExpression elements))))"
    and "elements \<noteq> []"
    and "R = n + (if list_ex is_prefix_increment_call body then 1 else 0)"
    and "L = length elements"
    and "w' = rotator_CallExpression JSON_stringify path nd w"
  shows "bindings w' arr =
           Some (Declarator (VariableDeclarator did (Some (ArrayExpression
             (map (\<lambda>j. elements ! j) ([R mod L..<L] @ [0..<R mod L]))))))
         \<and> removed w' = path # removed w \<and> changes w' = changes w + 1"
proof -
  have L: "0 < L"
    using assms(6,8) by simp
  have "round_double (of_nat (n + 1)) = Finite (of_nat (n + 1))"
    using assms(2) by (rule round_double_nat)
  then have plus: "js_plus (Finite (of_nat n)) (Finite 1) = Finite (of_nat (n + 1))"
    by (simp add: add.commute)
  have amount: "detect_increment body (Finite (of_nat n)) = Finite (of_nat R)"
    unfolding detect_increment_def assms(7) using plus by simp
  have rem: "js_remainder (Finite (of_nat R)) (Finite (of_nat (length elements)))
      = Some (of_nat (R mod L))"
    using js_remainder_nat[OF L] assms(8) by simp
  have k: "R mod L \<le> length elements"
    using L assms(8) by (simp add: less_imp_le)
  have "rotate_loop 0 (of_nat (R mod L)) elements
      = drop (R mod L) elements @ take (R mod L) elements"
    using assms(8) by (simp add: rotate_loop_nat rotate_drop_take)
  then have rot: "rotate_loop 0 (of_nat (R mod L)) elements =
      map (\<lambda>j. elements ! j) ([R mod L..<L] @ [0..<R mod L])"
    using drop_take_as_indices[OF k] assms(8) by simp
  show ?thesis
    using assms(3-6) unfolding assms(9) assms(1) rotator_CallExpression_def
    by (simp add: Let_def amount rem rot del: js_remainder.simps)
qed

theorem rotator_permutes_witness:
  "bindings (rotator_CallExpression sample_stringify 7 sample_rotator_call
       (sample_array_world [Some (StringLiteral ''one''), Some (StringLiteral ''two''),
          Some (StringLiteral ''three''), Some (StringLiteral ''four'')])) ''a'' =
     Some (Declarator (VariableDeclarator (Identifier ''a'') (Some (ArrayExpression
       [Some (StringLiteral ''four''), Some (StringLiteral ''one''),
        Some (StringLiteral ''two''), Some (StringLiteral ''three'')]))))
   \<and> removed (rotator_CallExpression sample_stringify 7 sample_rotator_call
       (sample_array_world [Some (StringLiteral ''one''), Some (StringLiteral ''two''),
          Some (StringLiteral ''three''), Some (StringLiteral ''four'')])) = [7]
   \<and> changes (rotator_CallExpression sample_stringify 7 sample_rotator_call
       (sample_array_world [Some (StringLiteral ''one''), Some (StringLiteral ''two''),
          Some (StringLiteral ''three''), Some (StringLiteral ''four'')])) = 1"
proof -
  let ?els = "[Some (StringLiteral ''one''), Some (StringLiteral ''two''),
          Some (StringLiteral ''three''), Some (StringLiteral ''four'')]"
  have c: "sample_rotator_call =
      CallExpression (FunctionExpression [Identifier ''e'', Identifier ''f''] sample_rotator_body)
        [Identifier ''a'', NumericLiteral (Finite (of_nat 2))]"
    by (simp add: sample_rotator_call_def)
  have n: "(2 :: nat) + 1 < 2 ^ 53"
    by simp
  have b: "bindings (sample_array_world ?els) ''a'' =
      Some (Declarator (VariableDeclarator (Identifier ''a'') (Some (ArrayExpression ?els))))"
    by (simp add: sample_array_world_def)
  have ne: "?els \<noteq> []"
    by simp
  have inc: "list_ex is_prefix_increment_call sample_rotator_body"
    by (simp add: sample_rotator_body_def)
  have u: "[3..<4] @ [0..<3] = [3, 0, 1, 2::nat]"
    by (simp add: upt_rec)
  show ?thesis
    using rotator_permutes[where JSON_stringify = sample_stringify
        and body = sample_rotator_body and path = 7,
        OF c n sample_body_mentions b ne refl refl refl] inc u
    by (simp add: sample_array_world_def)
qed

text \<open>
  C2, as stated, fails: on an empty array the handler returns before the removal.
\<close>

theorem rotator_empty_array_counterexample:
  "7 \<notin> set (removed (rotator_CallExpression sample_stringify 7 sample_rotator_call
      (sample_array_world [])))"
  by (simp add: rotator_CallExpression_def sample_rotator_call_def sample_array_world_def
      sample_body_mentions Let_def)

text \<open>
  C2, amended. When the rotator matches a call whose array has no elements, the handler
  returns early: the binding (and its empty element list), the removed paths and the
  change count are all as before, so the call stays in the tree.
\<close>

theorem rotator_empty_array_unchanged:
  assumes "nd = CallExpression (FunctionExpression params body)
                  [Identifier arr, NumericLiteral n]"
    and "str_includes (JSON_stringify body) ''push''"
    and "str_includes (JSON_stringify body) ''shift''"
    and "bindings w arr =
           Some (Declarator (VariableDeclarator did (Some (ArrayExpression []))))"
  shows "rotator_CallExpression JSON_stringify path nd w = w"
  using assms(2-4) unfolding assms(1) rotator_CallExpression_def
  by (simp add: Let_def)

theorem rotator_empty_array_unchanged_witness:
  "rotator_CallExpression sample_stringify 7 sample_rotator_call (sample_array_world [])
     = sample_array_world []"
  using rotator_empty_array_unchanged[where JSON_stringify = sample_stringify
      and body = sample_rotator_body and w = "sample_array_world []" and path = 7
      and did = "Identifier ''a''",
      OF sample_rotator_call_def sample_body_mentions]
  by (simp add: sample_array_world_def)

subsection \<open>The proxy inliner\<close>

lemma parse_samples:
  "parseInt ''0x11'' 16 = Finite 17" "parseInt ''0x12'' 16 = Finite 18"
  "parseInt [CHR 0xC2, CHR 0xA0, CHR ''1'', CHR ''7''] 10 = Finite 17"
  by code_simp+

lemma round_samples:
  "round_double 1 = Finite 1" "round_double 2 = Finite 2" "round_double 16 = Finite 16"
  "round_double (3 / 2) = Finite (3 / 2)"
  by code_simp+

lemma js_minus_samples:
  "js_minus (Finite 17) (Finite 16) = Finite 1" "js_minus (Finite 18) (Finite 16) = Finite 2"
  "js_minus (Finite 32) (Finite 16) = Finite 16"
  "js_minus (Finite (35 / 2)) (Finite 16) = Finite (3 / 2)"
  by (simp_all add: js_minus_def round_samples)





lemma proxy_visitor_frozen:
  "proxyName st \<noteq> [] \<Longrightarrow> fst (proxy_visitor (st, w) e) = st"
  by (cases e)
     (simp_all add: proxy_visitor_def proxy_FunctionDeclaration_def proxy_VariableDeclarator_def)

lemma proxy_visitor_effects:
  "e \<noteq> Exit_Program \<Longrightarrow> snd (proxy_visitor (st, w) e) = inline_with st w e"
  by (cases e) (simp_all add: proxy_visitor_def inline_with_def)

lemma proxy_run_frozen:
  "proxyName st \<noteq> [] \<Longrightarrow> Exit_Program \<notin> set evs \<Longrightarrow>
     foldl proxy_visitor (st, w) evs = (st, foldl (inline_with st) w evs)"
proof (induction evs arbitrary: w)
  case Nil
  show ?case by simp
next
  case (Cons e evs)
  have "fst (proxy_visitor (st, w) e) = st"
    using proxy_visitor_frozen[OF Cons.prems(1)] .
  moreover have "snd (proxy_visitor (st, w) e) = inline_with st w e"
    using Cons.prems(2) by (intro proxy_visitor_effects) auto
  ultimately have step: "proxy_visitor (st, w) e = (st, inline_with st w e)"
    by (metis prod.collapse)
  have "foldl proxy_visitor (st, inline_with st w e) evs =
        (st, foldl (inline_with st) (inline_with st w e) evs)"
    using Cons.IH[of "inline_with st w e"] Cons.prems by simp
  with step show ?case by simp
qed

lemma call_exit_removed:
  "removed (proxy_CallExpression_exit st path nd w) = removed w"
  by (simp add: proxy_CallExpression_exit_def Let_def
      split: expr.splits list.splits option.splits)

lemma inline_with_removed: "removed (inline_with st w ev) = removed w"
  by (cases ev) (simp_all add: inline_with_def call_exit_removed)

lemma inline_run_removed: "removed (foldl (inline_with st) w evs) = removed w"
  by (induction evs arbitrary: w) (simp_all add: inline_with_removed)

lemma analyze_True:
  "analyzeProxyFunction f ps b scp st = (True, st') \<Longrightarrow> proxyName st' = f"
  by (auto simp: analyzeProxyFunction_def Let_def
      split: if_splits option.splits node.splits declarator.splits expr.splits)

lemma analyze_False:
  "analyzeProxyFunction f ps b scp st = (False, st') \<Longrightarrow> st' = st"
  by (auto simp: analyzeProxyFunction_def Let_def
      split: if_splits option.splits node.splits declarator.splits expr.splits)

lemma first_match_handlers:
  assumes "proxyName st = []" and "proxy_handlers (st, w) e = (st1, w1)" and "proxyName st1 \<noteq> []"
  shows "proxyPath st1 = event_path e \<and> event_path e \<noteq> None \<and> w1 = w"
proof (cases e)
  case (Enter_FunctionDeclaration p nd scp)
  show ?thesis
  proof (cases nd)
    case (FunctionDeclaration fid ps b)
    show ?thesis
    proof (cases fid)
      case None
      then show ?thesis using assms Enter_FunctionDeclaration FunctionDeclaration
        by (auto simp: proxy_FunctionDeclaration_def)
    next
      case (Some f)
      obtain ok st' where a: "analyzeProxyFunction f ps b scp st = (ok, st')"
        by (cases "analyzeProxyFunction f ps b scp st")
      show ?thesis
      proof (cases ok)
        case True
        then show ?thesis using assms Enter_FunctionDeclaration FunctionDeclaration Some a
          by (auto simp: proxy_FunctionDeclaration_def)
      next
        case False
        then have "st' = st" using a analyze_False by simp
        then show ?thesis using assms Enter_FunctionDeclaration FunctionDeclaration Some a False
          by (auto simp: proxy_FunctionDeclaration_def)
      qed
    qed
  qed (use assms Enter_FunctionDeclaration in \<open>auto simp: proxy_FunctionDeclaration_def\<close>)
next
  case (Enter_VariableDeclarator p nd scp)
  have cases_nd: "(\<exists>f ps b. nd = VariableDeclarator (Identifier f) (Some (FunctionExpression ps b)))
      \<or> proxy_VariableDeclarator p nd scp st = st"
    by (auto simp: proxy_VariableDeclarator_def split: declarator.splits expr.splits option.splits)
  then show ?thesis
  proof
    assume "\<exists>f ps b. nd = VariableDeclarator (Identifier f) (Some (FunctionExpression ps b))"
    then obtain f ps b where nd: "nd = VariableDeclarator (Identifier f) (Some (FunctionExpression ps b))"
      by blast
    obtain ok st' where a: "analyzeProxyFunction f ps b scp st = (ok, st')"
      by (cases "analyzeProxyFunction f ps b scp st")
    show ?thesis
    proof (cases ok)
      case True
      then show ?thesis using assms Enter_VariableDeclarator nd a
        by (auto simp: proxy_VariableDeclarator_def)
    next
      case False
      then have "st' = st" using a analyze_False by simp
      then show ?thesis using assms Enter_VariableDeclarator nd a False
        by (auto simp: proxy_VariableDeclarator_def)
    qed
  next
    assume "proxy_VariableDeclarator p nd scp st = st"
    then show ?thesis using assms Enter_VariableDeclarator by auto
  qed
next
  case (Exit_CallExpression p nd)
  then show ?thesis using assms by auto
next
  case Exit_Program
  then show ?thesis using assms by auto
qed

lemma first_match_path:
  assumes "proxyName st = []" and "proxy_visitor (st, w) e = (st1, w1)" and "proxyName st1 \<noteq> []"
  shows "proxyPath st1 = event_path e \<and> event_path e \<noteq> None \<and> w1 = w"
proof (cases "thrown w = None")
  case True
  then have "proxy_handlers (st, w) e = (st1, w1)"
    using assms(2) by (simp add: proxy_visitor_def)
  from first_match_handlers[OF assms(1) this assms(3)] show ?thesis .
next
  case False
  then have "st1 = st"
    using assms(2) by (simp add: proxy_visitor_def)
  then show ?thesis
    using assms(1,3) by simp
qed

lemma sample_first_match:
  "proxy_visitor (initial_proxy_state, no_effects) (hd sample_events) = (sample_proxy_state, no_effects)"
  by (simp add: sample_events_def initial_proxy_state_def proxy_FunctionDeclaration_def
      analyzeProxyFunction_def sample_proxy_body_def sample_scope_def Let_def
      inner_VariableDeclarator_def inner_AssignmentExpression_def extract_string_def
      sample_proxy_state_def proxy_visitor_def no_effects_def)

text \<open>
  C10. Once a candidate has matched (the event \<open>e\<close> that takes the proxy name from
  empty to non-empty), the rest of the traversal leaves the visitor's variables as that
  match set them, so every later candidate is skipped and every call is inlined
  with that match's name, offset and strings; the recorded path is the matching
  declaration's, and the program exit removes that path and no other. (When a handler
  has thrown, the traversal has ended before the program exit and nothing is removed.)
\<close>

theorem proxy_single_detection:
  assumes "proxyName st = []"
    and "proxy_visitor (st, w) e = (st1, w1)"
    and "proxyName st1 \<noteq> []"
    and "Exit_Program \<notin> set later"
  shows "foldl proxy_visitor (st1, w1) later = (st1, foldl (inline_with st1) w1 later)
       \<and> proxyPath st1 = event_path e \<and> event_path e \<noteq> None
       \<and> removed (snd (foldl proxy_visitor (st1, w1) (later @ [Exit_Program])))
            = (if thrown (foldl (inline_with st1) w1 later) = None
               then [the (event_path e)] else []) @ removed w"
proof -
  have run: "foldl proxy_visitor (st1, w1) later = (st1, foldl (inline_with st1) w1 later)"
    using proxy_run_frozen[OF assms(3,4)] .
  have fm: "proxyPath st1 = event_path e \<and> event_path e \<noteq> None \<and> w1 = w"
    using first_match_path[OF assms(1-3)] .
  have "removed (snd (foldl proxy_visitor (st1, w1) (later @ [Exit_Program])))
      = removed (snd (proxy_visitor (st1, foldl (inline_with st1) w1 later) Exit_Program))"
    using run by simp
  also have "\<dots> = (if thrown (foldl (inline_with st1) w1 later) = None
               then [the (event_path e)] else []) @ removed w"
    using fm assms(3)
    by (auto simp: proxy_visitor_def proxy_Program_exit_def inline_run_removed)
  finally show ?thesis using run fm by simp
qed

theorem proxy_single_detection_witness:
  "foldl proxy_visitor (sample_proxy_state, no_effects) (butlast (tl sample_events))
     = (sample_proxy_state,
        no_effects\<lparr>replaced := [(6, StringLiteral ''Z''), (5, StringLiteral ''Y'')], changes := 2\<rparr>)
   \<and> proxyPath sample_proxy_state = Some 2
   \<and> removed (snd (foldl proxy_visitor (sample_proxy_state, no_effects)
        (butlast (tl sample_events) @ [Exit_Program]))) = [2]"
proof -
  have i: "proxyName initial_proxy_state = []"
    by (simp add: initial_proxy_state_def)
  have d: "proxyName sample_proxy_state \<noteq> []"
    by (simp add: sample_proxy_state_def)
  have l: "Exit_Program \<notin> set (butlast (tl sample_events))"
    by (simp add: sample_events_def)
  have r: "foldl (inline_with sample_proxy_state) no_effects (butlast (tl sample_events))
     = no_effects\<lparr>replaced := [(6, StringLiteral ''Z''), (5, StringLiteral ''Y'')], changes := 2\<rparr>"
    by (simp add: sample_events_def inline_with_def proxy_CallExpression_exit_def
        sample_proxy_state_def no_effects_def argument_index_def startsWith_def Let_def
        parse_samples js_minus_samples js_greater_equal_def)
  have e: "event_path (hd sample_events) = Some 2"
    by (simp add: sample_events_def)
  have p: "proxyPath sample_proxy_state = Some 2"
    by (simp add: sample_proxy_state_def)
  have "removed no_effects = []" "thrown no_effects = None"
    by (simp_all add: no_effects_def)
  then show ?thesis
    using proxy_single_detection[OF i sample_first_match d l] r e p
    by (simp del: foldl_append)
qed

subsection \<open>Dead-code removal\<close>





text \<open>
  The run variant leaves the decision on an initializer to the purity test, also when
  the initializer is a call: with a test that accepts the call, the variable is removed.
\<close>

lemma dead_code_call_initializer:
  "processScope (\<lambda>e. True)
     [(''called'', \<lparr>referenced = False, referencePaths = [], constantViolations = [],
                    bindingPath = 13,
                    bindingNode = Declarator (VariableDeclarator (Identifier ''called'')
                                    (Some (CallExpression (Identifier ''init'') [])))\<rparr>)]
     no_effects []
   = (True, no_effects\<lparr>removed := [13], changes := 1\<rparr>, [''called''])"
  by (simp add: processScope_def removes_declaration_def no_effects_def Let_def)



subsection \<open>The string-array extractor\<close>


lemma map_String_length:
  "map_String calls i items = Inr strings \<Longrightarrow> length strings = length items"
proof (induction items arbitrary: i strings)
  case Nil
  then show ?case by simp
next
  case (Cons entry items)
  then show ?case
    by (cases entry) (auto split: sum.splits)
qed










subsection \<open>The obfuscator.io target\<close>

text \<open>
  C7. With no sandbox in the context, or with no string array found in the tree, the
  run returns the tree and the change count as they were.
\<close>

theorem obfuscatorIO_noop:
  assumes "ctx_sandbox ctx = None \<or> findStringArray ext (ctx_ast ctx) = None"
  shows "ctx_ast (obfuscatorIO_run ext ctx) = ctx_ast ctx
       \<and> ctx_changes (obfuscatorIO_run ext ctx) = ctx_changes ctx"
  using assms
  by (auto simp: obfuscatorIO_run_def log_message_def split: option.splits)

theorem obfuscatorIO_noop_witness:
  "ctx_ast (obfuscatorIO_run sample_externals (sample_context None)) = sample_tree
   \<and> ctx_changes (obfuscatorIO_run sample_externals (sample_context None)) = 0"
proof -
  have "ctx_sandbox (sample_context None) = None
        \<or> findStringArray sample_externals (ctx_ast (sample_context None)) = None"
    by (simp add: sample_context_def)
  from obfuscatorIO_noop[OF this] show ?thesis
    by (simp add: sample_context_def)
qed

lemma remove_path_gone: "remove_path p t p = None"
  by (simp add: remove_path_def)

lemma remove_path_keeps_gone: "t q = None \<Longrightarrow> remove_path p t q = None"
  by (simp add: remove_path_def)

lemma fold_remove_keeps_gone:
  "t q = None \<Longrightarrow> foldl (\<lambda>t d. remove_path (decoder_path d) t) t ds q = None"
  by (induction ds arbitrary: t) (simp_all add: remove_path_keeps_gone)

lemma fold_remove_gone:
  "d \<in> set ds \<Longrightarrow> foldl (\<lambda>t d. remove_path (decoder_path d) t) t ds (decoder_path d) = None"
proof (induction ds arbitrary: t)
  case Nil
  then show ?case by simp
next
  case (Cons a ds)
  show ?case
  proof (cases "d = a")
    case True
    then show ?thesis
      by (simp add: fold_remove_keeps_gone remove_path_gone)
  next
    case False
    then show ?thesis using Cons by simp
  qed
qed


lemma fold_remove_others:
  "q \<notin> decoder_path ` set ds \<Longrightarrow>
     foldl (\<lambda>t d. remove_path (decoder_path d) t) t ds q = t q"
  by (induction ds arbitrary: t) (simp_all add: remove_path_def)

lemma remove_path_other: "q \<noteq> p \<Longrightarrow> remove_path p t q = t q"
  by (simp add: remove_path_def)

lemma remove_infrastructure_effect:
  assumes "decoders \<noteq> []"
    and "after = remove_infrastructure sarr rotator decoders before"
  shows "ctx_changes after = ctx_changes before + 2 + length decoders"
    and "ctx_ast after (sa_path sarr) = None"
    and "\<forall>r. rotator = Some r \<longrightarrow> ctx_ast after r = None"
    and "\<forall>d \<in> set decoders. ctx_ast after (decoder_path d) = None"
    and "\<forall>q. q \<noteq> sa_path sarr \<and> rotator \<noteq> Some q \<and> q \<notin> decoder_path ` set decoders
            \<longrightarrow> ctx_ast after q = ctx_ast before q"
proof -
  show "ctx_changes after = ctx_changes before + 2 + length decoders"
    using assms by (simp add: remove_infrastructure_def Let_def)
  show "ctx_ast after (sa_path sarr) = None"
    using assms
    by (auto simp: remove_infrastructure_def Let_def fold_remove_keeps_gone
        remove_path_keeps_gone remove_path_gone split: option.splits)
  show "\<forall>r. rotator = Some r \<longrightarrow> ctx_ast after r = None"
    using assms
    by (auto simp: remove_infrastructure_def Let_def fold_remove_keeps_gone remove_path_gone)
  show "\<forall>d \<in> set decoders. ctx_ast after (decoder_path d) = None"
    using assms
    by (auto simp: remove_infrastructure_def Let_def fold_remove_gone)
  show "\<forall>q. q \<noteq> sa_path sarr \<and> rotator \<noteq> Some q \<and> q \<notin> decoder_path ` set decoders
            \<longrightarrow> ctx_ast after q = ctx_ast before q"
    using assms
    by (auto simp: remove_infrastructure_def Let_def fold_remove_others remove_path_other
        split: option.splits)
qed

text \<open>
  C8. In a run that has a sandbox and finds the string array, when \<open>findDecoders\<close>
  returns at least one decoder: with \<open>before\<close> the context as the three inlining steps
  leave it, the context \<open>after\<close> that the run hands to its final clean-up has the paths of
  the string array, of the rotator if \<open>findArrayRotator\<close> found one, and of every decoder
  emptied, every other path as in \<open>before\<close>, and a change count that is larger by exactly
  2 plus the number of decoders, whether or not there is a rotator; the run's result
  is the clean-up applied to \<open>after\<close>.
\<close>

theorem obfuscatorIO_removal_count:
  assumes "ctx_sandbox ctx = Some sb"
    and "findStringArray ext (ctx_ast ctx) = Some sarr"
    and "rotator = findArrayRotator ext (ctx_ast ctx) sarr"
    and "decoders = findDecoders ext (ctx_ast ctx) sarr"
    and "decoders \<noteq> []"
  shows "\<exists>messages before after.
           before = inline_strings ext sb sarr rotator decoders (ctx\<lparr>ctx_log := messages\<rparr>)
         \<and> obfuscatorIO_run ext ctx = apply_counted (cleanup_transforms ext) after
         \<and> ctx_changes after = ctx_changes before + 2 + length decoders
         \<and> ctx_ast after (sa_path sarr) = None
         \<and> (\<forall>r. rotator = Some r \<longrightarrow> ctx_ast after r = None)
         \<and> (\<forall>d \<in> set decoders. ctx_ast after (decoder_path d) = None)
         \<and> (\<forall>q. q \<noteq> sa_path sarr \<and> rotator \<noteq> Some q \<and> q \<notin> decoder_path ` set decoders
                \<longrightarrow> ctx_ast after q = ctx_ast before q)
         \<and> ctx_changes (obfuscatorIO_run ext ctx)
             = ctx_changes before + 2 + length decoders
               + snd (cleanup_transforms ext (ctx_ast after))"
proof -
  define messages where "messages = ctx_log ctx
      @ [''String Array: '' @ originalName sarr @ '', length '' @ decimal (sa_length sarr),
         ''String Array Rotate: '' @ (if rotator \<noteq> None then ''yes'' else ''no''),
         ''String Array Decoders: '' @ join '', '' (map decoder_name decoders)]"
  define before where
    "before = inline_strings ext sb sarr rotator decoders (ctx\<lparr>ctx_log := messages\<rparr>)"
  define after where "after = remove_infrastructure sarr rotator decoders before"
  have run: "obfuscatorIO_run ext ctx = apply_counted (cleanup_transforms ext) after"
    using assms(1,2)
    by (simp add: obfuscatorIO_run_def log_message_def Let_def after_def before_def
        messages_def assms(3,4))
  have count: "ctx_changes (apply_counted (cleanup_transforms ext) after)
      = ctx_changes after + snd (cleanup_transforms ext (ctx_ast after))"
    by (simp add: apply_counted_def split: prod.splits)
  note eff = remove_infrastructure_effect[OF assms(5) after_def]
  show ?thesis
    using run count eff before_def
    by (intro exI[of _ messages] exI[of _ before] exI[of _ after]) simp
qed

theorem obfuscatorIO_removal_count_witness:
  "ctx_changes (obfuscatorIO_run sample_externals (sample_context (Some sample_evaluator))) = 4
   \<and> ctx_ast (obfuscatorIO_run sample_externals (sample_context (Some sample_evaluator))) 1 = None
   \<and> ctx_ast (obfuscatorIO_run sample_externals (sample_context (Some sample_evaluator))) 2 = None
   \<and> ctx_ast (obfuscatorIO_run sample_externals (sample_context (Some sample_evaluator))) 3 = None
   \<and> ctx_ast (obfuscatorIO_run sample_externals (sample_context (Some sample_evaluator))) 4
       = Some (Expr (StringLiteral ''hello''))"
proof -
  let ?ctx = "sample_context (Some sample_evaluator)"
  have sb: "ctx_sandbox ?ctx = Some sample_evaluator"
    by (simp add: sample_context_def)
  have sa: "findStringArray sample_externals (ctx_ast ?ctx) = Some sample_string_array"
    by (simp add: sample_context_def sample_externals_def sample_tree_def)
  have ro: "Some 2 = findArrayRotator sample_externals (ctx_ast ?ctx) sample_string_array"
    by (simp add: sample_context_def sample_externals_def sample_tree_def)
  have de: "[sample_decoder] = findDecoders sample_externals (ctx_ast ?ctx) sample_string_array"
    by (simp add: sample_context_def sample_externals_def sample_tree_def)
  have ne: "[sample_decoder] \<noteq> []"
    by simp
  obtain messages before after where
    b: "before = inline_strings sample_externals sample_evaluator sample_string_array (Some 2)
          [sample_decoder] (?ctx\<lparr>ctx_log := messages\<rparr>)"
    and r: "obfuscatorIO_run sample_externals ?ctx
          = apply_counted (cleanup_transforms sample_externals) after"
    and c: "ctx_changes after = ctx_changes before + 2 + length [sample_decoder]"
    and p1: "ctx_ast after (sa_path sample_string_array) = None"
    and p2: "\<forall>r. Some 2 = Some r \<longrightarrow> ctx_ast after r = None"
    and p3: "\<forall>d \<in> set [sample_decoder]. ctx_ast after (decoder_path d) = None"
    and p4: "\<forall>q. q \<noteq> sa_path sample_string_array \<and> Some 2 \<noteq> Some q
                \<and> q \<notin> decoder_path ` set [sample_decoder]
                \<longrightarrow> ctx_ast after q = ctx_ast before q"
    using obfuscatorIO_removal_count[OF sb sa ro de ne] by blast
  have before_changes: "ctx_changes before = 1"
    unfolding b
    by (simp add: inline_strings_def apply_counted_def sample_externals_def sample_context_def
        Let_def)
  have before_4: "ctx_ast before 4 = Some (Expr (StringLiteral ''hello''))"
    unfolding b
    by (simp add: inline_strings_def apply_counted_def sample_externals_def sample_context_def
        Let_def)
  have after_4: "ctx_ast after 4 = Some (Expr (StringLiteral ''hello''))"
    using p4 before_4 by (simp add: sample_string_array_def sample_decoder_def)
  have result: "obfuscatorIO_run sample_externals ?ctx = after"
    unfolding r by (simp add: apply_counted_def sample_externals_def)
  show ?thesis
    unfolding result using c before_changes p1 p2 p3 after_4
    by (simp add: sample_string_array_def sample_decoder_def)
qed

subsection \<open>Target resolution\<close>







end
